theory Spec2Isabelle
  imports Complex_Main
begin

section \<open>Numeric model\<close>

text \<open>
  The simulation works on NumPy arrays of double-precision floats. They are modelled as
  lists of real numbers. Arithmetic is exact, with one exception: the addition by which
  \<open>np.mod\<close> moves a remainder to the sign of the divisor is rounded to the nearest double,
  because that rounding decides whether a wrapped position can reach \<open>boxsize\<close>. What is
  stated about the other operations is their structure (shapes, indices, the order of the
  updates, which arrays are written) or their value in exact arithmetic. Overflow, \<open>inf\<close>
  and \<open>nan\<close> are outside the model: where NumPy would produce a non-finite value (an
  array divided by zero) the model stops with \<open>NonFinite\<close>. Integer index arrays are lists
  of unbounded integers. A two-dimensional array of shape \<open>(N, 1)\<close> is the list of its
  \<open>N\<close> entries.
\<close>

datatype error = ZeroDivisionError | ValueError | IndexError | NonFinite

definition bindE :: "error + 'a \<Rightarrow> ('a \<Rightarrow> error + 'b) \<Rightarrow> error + 'b" where
  "bindE m f = (case m of Inl e \<Rightarrow> Inl e | Inr x \<Rightarrow> f x)"

text \<open>Python's \<open>/\<close> on two scalars raises when the divisor is zero.\<close>

definition py_div :: "real \<Rightarrow> real \<Rightarrow> error + real" where
  "py_div a b = (if b = 0 then Inl ZeroDivisionError else Inr (a / b))"

text \<open>
  Rounding to the nearest double (binary64, ties to even): a non-zero \<open>y\<close> with
  \<open>2 ^ e \<le> |y| < 2 ^ (e + 1)\<close> is rounded to a multiple of \<open>2 ^ (e - 52)\<close>, and to a
  multiple of \<open>2 ^ (- 1074)\<close> below the normal range. The exponent is not bounded above.
\<close>

fun ilog2 :: "nat \<Rightarrow> nat" where
  "ilog2 n = (if n < 2 then 0 else Suc (ilog2 (n div 2)))"

definition binade :: "real \<Rightarrow> int" where
  "binade y =
     (if 1 \<le> y then int (ilog2 (nat \<lfloor>y\<rfloor>))
      else if nat \<lceil>1 / y\<rceil> \<le> 1 then 0
      else - int (Suc (ilog2 (nat \<lceil>1 / y\<rceil> - 1))))"

definition pow2 :: "int \<Rightarrow> real" where
  "pow2 k = (if 0 \<le> k then 2 ^ nat k else 1 / 2 ^ nat (- k))"

definition round_half_even :: "real \<Rightarrow> int" where
  "round_half_even t =
     (let f = \<lfloor>t\<rfloor>; d = t - real_of_int f
      in if d < 1 / 2 then f
         else if 1 / 2 < d then f + 1
         else if even f then f else f + 1)"

definition round_double :: "real \<Rightarrow> real" where
  "round_double y =
     (if y = 0 then 0
      else let q = pow2 (max (binade \<bar>y\<bar>) (- 1022) - 52)
           in q * real_of_int (round_half_even (y / q)))"

section \<open>Mesh operators\<close>

text \<open>
  A sparse matrix is modelled by its dense rows; the storage format (DIA, CSR) does not
  change the entries, so \<open>tocsr\<close> is the identity here.
\<close>

type_synonym matrix = "real list list"

text \<open>
  \<open>scipy.sparse.diags(diagonals, offsets, shape=(n, n))\<close> with scalar diagonals, which are
  broadcast along their diagonal. The library rejects an offset whose diagonal would have
  negative length, and a repeated offset.
\<close>

definition diag_length :: "int \<Rightarrow> int \<Rightarrow> int" where
  "diag_length n off = min (min (n + off) (n - off)) n"

definition diags_entry :: "real list \<Rightarrow> int list \<Rightarrow> int \<Rightarrow> real" where
  "diags_entry diagonals offsets k =
     (case map_of (zip offsets diagonals) k of None \<Rightarrow> 0 | Some v \<Rightarrow> v)"

definition sp_diags :: "real list \<Rightarrow> int list \<Rightarrow> int \<Rightarrow> error + matrix" where
  "sp_diags diagonals offsets n =
     (if length diagonals \<noteq> length offsets then Inl ValueError
      else if \<exists>off \<in> set offsets. diag_length n off < 0 then Inl ValueError
      else if \<not> distinct offsets then Inl ValueError
      else Inr (map (\<lambda>i. map (\<lambda>j. diags_entry diagonals offsets (int j - int i))
                              [0..<nat n])
                    [0..<nat n]))"

text \<open>A sparse matrix divided by a scalar: the library multiplies by \<open>1. / scalar\<close>.\<close>

definition mat_div :: "matrix \<Rightarrow> real \<Rightarrow> error + matrix" where
  "mat_div M c = (if c = 0 then Inl ZeroDivisionError
                  else Inr (map (map (\<lambda>x. x * (1 / c))) M))"

definition mat_add :: "matrix \<Rightarrow> matrix \<Rightarrow> matrix" where
  "mat_add A B = map2 (map2 (+)) A B"

definition mat_neg :: "matrix \<Rightarrow> matrix" where
  "mat_neg M = map (map uminus) M"

text \<open>\<open>M @ v\<close>: the product of a matrix and a vector, refused when the shapes differ.\<close>

definition matvec :: "matrix \<Rightarrow> real list \<Rightarrow> error + real list" where
  "matvec M v =
     (if list_all (\<lambda>row. length row = length v) M
      then Inr (map (\<lambda>row. sum_list (map2 (*) row v)) M)
      else Inl ValueError)"

definition create_matrices :: "int \<Rightarrow> real \<Rightarrow> error + (matrix \<times> matrix)" where
  "create_matrices Nx boxsize =
     bindE (py_div boxsize (real_of_int Nx)) (\<lambda>dx.
     bindE (sp_diags [-1, 1] [0, 1] Nx) (\<lambda>G0.
     bindE (mat_div G0 dx) (\<lambda>Gmtx.
     bindE (sp_diags [1, -2, 1] [-1, 0, 1] Nx) (\<lambda>L0.
     bindE (mat_div L0 (dx ^ 2)) (\<lambda>Lmtx.
     bindE (sp_diags [1, 1] [- Nx + 1, Nx - 1] Nx) (\<lambda>C0.
     bindE (mat_div C0 (dx ^ 2)) (\<lambda>C.
     Inr (Gmtx, mat_add Lmtx C))))))))"

section \<open>Arrays\<close>

text \<open>
  Arrays that the program updates in place, or shares between caller and callee, live in
  a store: a list of cells, an address being an index. A fresh array is appended.
\<close>

type_synonym addr = nat
type_synonym heap = "real list list"

definition alloc :: "real list \<Rightarrow> heap \<Rightarrow> addr \<times> heap" where
  "alloc v h = (length h, h @ [v])"

text \<open>
  \<open>x += y\<close> on arrays of shapes \<open>(n, 1)\<close> and \<open>(m, 1)\<close> (or \<open>(n,)\<close> and \<open>(m,)\<close>) writes
  into \<open>x\<close>; \<open>y\<close> is broadcast when \<open>m = 1\<close>, and any other mismatch is refused.
\<close>

definition iadd :: "addr \<Rightarrow> real list \<Rightarrow> heap \<Rightarrow> error + heap" where
  "iadd a ys h =
     (let xs = h ! a in
      if length ys = length xs then Inr (h[a := map2 (+) xs ys])
      else if length ys = 1 then Inr (h[a := map (\<lambda>x. x + hd ys) xs])
      else Inl ValueError)"

text \<open>\<open>x *= c\<close> for a scalar \<open>c\<close>.\<close>

definition imul :: "addr \<Rightarrow> real \<Rightarrow> heap \<Rightarrow> heap" where
  "imul a c h = h[a := map (\<lambda>x. x * c) (h ! a)]"

text \<open>An array divided by a scalar: dividing an element by zero gives no real number.\<close>

definition arr_div :: "real list \<Rightarrow> real \<Rightarrow> error + real list" where
  "arr_div xs c = (if c = 0 \<and> xs \<noteq> [] then Inl NonFinite else Inr (map (\<lambda>x. x / c) xs))"

text \<open>
  \<open>np.mod(a, b)\<close> on doubles, as NumPy computes it: the C remainder \<open>fmod(a, b)\<close>, which
  is exact and has the sign of \<open>a\<close>, and, when that is non-zero and its sign differs from
  the sign of \<open>b\<close>, the floating-point sum \<open>fmod(a, b) + b\<close>.
\<close>

definition npy_remainder :: "real \<Rightarrow> real \<Rightarrow> real" where
  "npy_remainder a b =
     (let t = a / b;
          m = a - b * real_of_int (if 0 \<le> t then \<lfloor>t\<rfloor> else \<lceil>t\<rceil>)
      in if m \<noteq> 0 \<and> (b < 0) \<noteq> (m < 0) then round_double (m + b) else m)"

definition np_mod :: "real list \<Rightarrow> real \<Rightarrow> error + real list" where
  "np_mod xs c =
     (if c = 0 \<and> xs \<noteq> [] then Inl NonFinite
      else Inr (map (\<lambda>x. npy_remainder x c) xs))"

text \<open>
  \<open>np.bincount(x, weights, minlength)\<close>: an additive scatter of the weights into an array
  of length \<open>max(minlength, max(x) + 1)\<close>. Negative entries of \<open>x\<close>, a negative
  \<open>minlength\<close> and weights of another length are refused.
\<close>

definition bincount_len :: "int list \<Rightarrow> int \<Rightarrow> nat" where
  "bincount_len x minlength = max (nat minlength) (nat (fold max x (- 1) + 1))"

definition bincount :: "int list \<Rightarrow> real list \<Rightarrow> int \<Rightarrow> error + real list" where
  "bincount x weights minlength =
     (if minlength < 0 then Inl ValueError
      else if length weights \<noteq> length x then Inl ValueError
      else if \<exists>k \<in> set x. k < 0 then Inl ValueError
      else Inr (fold (\<lambda>(k, w) out. out[nat k := out ! nat k + w]) (zip x weights)
                     (replicate (bincount_len x minlength) 0)))"

text \<open>
  \<open>a[idx]\<close> with an integer index array: a negative index counts from the end, an index
  out of range raises.
\<close>

definition take_idx :: "real list \<Rightarrow> int list \<Rightarrow> error + real list" where
  "take_idx xs ks =
     (if list_all (\<lambda>k. - int (length xs) \<le> k \<and> k < int (length xs)) ks
      then Inr (map (\<lambda>k. xs ! nat (if k < 0 then k + int (length xs) else k)) ks)
      else Inl IndexError)"

section \<open>Acceleration: deposit, solve, interpolate\<close>

text \<open>
  The first part of \<open>getAcc\<close>: the electron number density on the mesh. Its local
  arrays \<open>j\<close>, \<open>jp1\<close>, \<open>weight_j\<close> and \<open>weight_jp1\<close> are never updated in place and are
  kept as values; \<open>n\<close> is updated in place and lives in the store.
\<close>

record deposition =
  dep_j :: "int list"
  dep_jp1 :: "int list"
  dep_weight_j :: "real list"
  dep_weight_jp1 :: "real list"
  dep_n :: addr

definition getAcc_deposit ::
  "addr \<Rightarrow> int \<Rightarrow> real \<Rightarrow> real \<Rightarrow> heap \<Rightarrow> error + (deposition \<times> heap)" where
  "getAcc_deposit pos Nx boxsize n0 h =
     (let N = length (h ! pos) in
      bindE (py_div boxsize (real_of_int Nx)) (\<lambda>dx.
      bindE (arr_div (h ! pos) dx) (\<lambda>q.
      let j = map floor q;
          jp1 = map (\<lambda>k. k + 1) j in
      bindE (arr_div (map2 (\<lambda>k p. real_of_int k * dx - p) jp1 (h ! pos)) dx) (\<lambda>weight_j.
      bindE (arr_div (map2 (\<lambda>p k. p - real_of_int k * dx) (h ! pos) j) dx) (\<lambda>weight_jp1.
      let jp1 = map (\<lambda>k. k mod Nx) jp1 in
      bindE (bincount j weight_j Nx) (\<lambda>b.
      let (n, h1) = alloc b h in
      bindE (bincount jp1 weight_jp1 Nx) (\<lambda>b'.
      bindE (iadd n b' h1) (\<lambda>h2.
      bindE (py_div (n0 * boxsize) (real N)) (\<lambda>c.
      bindE (py_div c dx) (\<lambda>c'.
      Inr (\<lparr>dep_j = j, dep_jp1 = jp1, dep_weight_j = weight_j,
             dep_weight_jp1 = weight_jp1, dep_n = n\<rparr>,
           imul n c' h2)))))))))))"

text \<open>
  The sparse direct solver \<open>spsolve\<close> is a library routine; it is a parameter of the model.
\<close>

type_synonym solver = "matrix \<Rightarrow> real list \<Rightarrow> error + real list"

definition getAcc ::
  "solver \<Rightarrow> addr \<Rightarrow> int \<Rightarrow> real \<Rightarrow> real \<Rightarrow> matrix \<Rightarrow> matrix \<Rightarrow> heap
     \<Rightarrow> error + (real list \<times> heap)" where
  "getAcc spsolve pos Nx boxsize n0 Gmtx Lmtx h =
     bindE (getAcc_deposit pos Nx boxsize n0 h) (\<lambda>(d, h1).
     bindE (spsolve Lmtx (map (\<lambda>x. x - n0) (h1 ! dep_n d))) (\<lambda>phi_grid.
     bindE (matvec (mat_neg Gmtx) phi_grid) (\<lambda>E_grid.
     bindE (take_idx E_grid (dep_j d)) (\<lambda>Ej.
     bindE (take_idx E_grid (dep_jp1 d)) (\<lambda>Ejp1.
     let E = map2 (+) (map2 (*) (dep_weight_j d) Ej) (map2 (*) (dep_weight_jp1 d) Ejp1)
     in Inr (map uminus E, h1))))))"

section \<open>The driver\<close>

text \<open>
  The parameters that \<open>main\<close> fixes as constants are fields of a configuration, so that
  statements about every configuration can be made. The two random samplers are given by
  the sequences they draw from.
\<close>

record config =
  cfg_N :: int
  cfg_Nx :: int
  cfg_tEnd :: real
  cfg_dt :: real
  cfg_boxsize :: real
  cfg_n0 :: real
  cfg_vb :: real
  cfg_vth :: real

record state =
  st_pos :: addr
  st_vel :: addr
  st_t :: real
  st_heap :: heap

text \<open>One pass through the body of the \<open>while\<close> loop; plotting does not change the state.\<close>

definition step :: "solver \<Rightarrow> config \<Rightarrow> matrix \<Rightarrow> matrix \<Rightarrow> state \<Rightarrow> error + state" where
  "step spsolve cfg Gmtx Lmtx s =
     bindE (getAcc spsolve (st_pos s) (cfg_Nx cfg) (cfg_boxsize cfg) (cfg_n0 cfg) Gmtx Lmtx
              (st_heap s)) (\<lambda>(a, h1).
     bindE (iadd (st_pos s) (map (\<lambda>v. cfg_dt cfg * v) (h1 ! st_vel s)) h1) (\<lambda>h2.
     bindE (iadd (st_vel s) (map (\<lambda>x. cfg_dt cfg * x) a) h2) (\<lambda>h3.
     bindE (np_mod (h3 ! st_pos s) (cfg_boxsize cfg)) (\<lambda>wrapped.
     let (p, h4) = alloc wrapped h3
     in Inr (s\<lparr>st_pos := p, st_t := st_t s + cfg_dt cfg, st_heap := h4\<rparr>)))))"

text \<open>
  The loop \<open>while t < tEnd\<close> need not end (\<open>dt \<le> 0\<close>), so it runs on fuel: \<open>None\<close> when
  the fuel is used up, otherwise the error raised or the state at exit.
\<close>

fun loop :: "nat \<Rightarrow> solver \<Rightarrow> config \<Rightarrow> matrix \<Rightarrow> matrix \<Rightarrow> state \<Rightarrow> (error + state) option" where
  "loop 0 spsolve cfg Gmtx Lmtx s = None"
| "loop (Suc fuel) spsolve cfg Gmtx Lmtx s =
     (if st_t s < cfg_tEnd cfg
      then (case step spsolve cfg Gmtx Lmtx s of
              Inl e \<Rightarrow> Some (Inl e)
            | Inr s' \<Rightarrow> loop fuel spsolve cfg Gmtx Lmtx s')
      else Some (Inr s))"

text \<open>\<open>np.random.rand(N, 1)\<close> and \<open>np.random.randn(N, 1)\<close> refuse a negative dimension.\<close>

definition sample :: "(nat \<Rightarrow> real) \<Rightarrow> int \<Rightarrow> error + real list" where
  "sample draw N = (if N < 0 then Inl ValueError else Inr (map draw [0..<nat N]))"

definition main ::
  "nat \<Rightarrow> solver \<Rightarrow> (nat \<Rightarrow> real) \<Rightarrow> (nat \<Rightarrow> real) \<Rightarrow> config \<Rightarrow> (error + state) option" where
  "main fuel spsolve rand randn cfg =
     (case bindE (sample rand (cfg_N cfg)) (\<lambda>u.
           bindE (sample randn (cfg_N cfg)) (\<lambda>g.
           bindE (create_matrices (cfg_Nx cfg) (cfg_boxsize cfg)) (\<lambda>(Gmtx, Lmtx).
           let (pos, h1) = alloc (map (\<lambda>x. x * cfg_boxsize cfg) u) [];
               (vel, h2) = alloc (map (\<lambda>x. cfg_vth cfg * x + cfg_vb cfg) g) h1
           in Inr (Gmtx, Lmtx, \<lparr>st_pos = pos, st_vel = vel, st_t = 0, st_heap = h2\<rparr>))))
      of Inl e \<Rightarrow> Some (Inl e)
       | Inr (Gmtx, Lmtx, s) \<Rightarrow> loop fuel spsolve cfg Gmtx Lmtx s)"

section \<open>Properties of the rounding\<close>

text \<open>
  The exponent found by \<open>binade\<close> is the right one, and the rounded value is within half a
  grid step of the exact one.
\<close>

declare ilog2.simps [simp del]

lemma ilog2_bounds: "0 < n \<Longrightarrow> 2 ^ ilog2 n \<le> n \<and> n < 2 ^ Suc (ilog2 n)"
proof (induction n rule: ilog2.induct)
  case (1 n)
  show ?case
  proof (cases "n < 2")
    case True
    then have "n = 1" using 1(2) by simp
    then show ?thesis by (simp add: ilog2.simps)
  next
    case False
    then have "0 < n div 2" by simp
    from 1(1)[OF False this]
    have a: "2 ^ ilog2 (n div 2) \<le> n div 2" and b: "n div 2 < 2 ^ Suc (ilog2 (n div 2))"
      by simp_all
    have e: "ilog2 n = Suc (ilog2 (n div 2))" using False by (simp add: ilog2.simps)
    have "2 * 2 ^ ilog2 (n div 2) \<le> n" using a by linarith
    moreover have "n < 2 * 2 ^ Suc (ilog2 (n div 2))" using b by linarith
    ultimately show ?thesis unfolding e by simp
  qed
qed

lemma ilog2_bounds_real:
  assumes "0 < n"
  shows "(2::real) ^ ilog2 n \<le> real n" "real n + 1 \<le> 2 ^ Suc (ilog2 n)"
proof -
  have "real (2 ^ ilog2 n) \<le> real n"
    using ilog2_bounds[OF assms] by (simp only: of_nat_le_iff)
  then show "(2::real) ^ ilog2 n \<le> real n" by simp
  have "Suc n \<le> 2 ^ Suc (ilog2 n)" using ilog2_bounds[OF assms] by simp
  then have "real (Suc n) \<le> real (2 ^ Suc (ilog2 n))" by (simp only: of_nat_le_iff)
  then show "real n + 1 \<le> 2 ^ Suc (ilog2 n)" by simp
qed

lemma pow2_pos: "0 < pow2 k"
  by (simp add: pow2_def)

lemma pow2_nat: "pow2 (int n) = 2 ^ n"
  by (simp add: pow2_def)

lemma pow2_neg: "pow2 (- int n) = 1 / 2 ^ n"
proof (cases n)
  case 0
  then show ?thesis by (simp add: pow2_def)
next
  case (Suc m)
  have "\<not> 0 \<le> - int (Suc m)" by simp
  moreover have "nat (- (- int (Suc m))) = Suc m" by simp
  ultimately show ?thesis unfolding Suc pow2_def by (simp only: if_False)
qed

lemma binade_bounds:
  assumes "0 < y"
  shows "pow2 (binade y) \<le> y \<and> y < 2 * pow2 (binade y)"
proof (cases "1 \<le> y")
  case True
  define n where "n = nat \<lfloor>y\<rfloor>"
  have f: "1 \<le> \<lfloor>y\<rfloor>" using True by (simp add: le_floor_iff)
  then have n0: "0 < n" unfolding n_def by linarith
  have "0 \<le> \<lfloor>y\<rfloor>" using f by linarith
  then have rn: "real n = real_of_int \<lfloor>y\<rfloor>" unfolding n_def by (simp only: of_nat_nat)
  have n1: "real n \<le> y" unfolding rn by (rule of_int_floor_le)
  have n2: "y < real n + 1" unfolding rn by linarith
  have b: "binade y = int (ilog2 n)" using True by (simp add: binade_def n_def)
  have hs: "(2::real) ^ Suc (ilog2 n) = 2 * 2 ^ ilog2 n" by simp
  show ?thesis
    unfolding b pow2_nat using ilog2_bounds_real[OF n0] n1 n2 unfolding hs by linarith
next
  case False
  define z where "z = 1 / y"
  have z: "1 < z" unfolding z_def using False assms by simp
  define n where "n = nat \<lceil>z\<rceil>"
  have c: "2 \<le> \<lceil>z\<rceil>" using z by (simp add: le_ceiling_iff)
  then have n0: "2 \<le> n" unfolding n_def by linarith
  have "0 \<le> \<lceil>z\<rceil>" using c by linarith
  then have rn: "real n = real_of_int \<lceil>z\<rceil>" unfolding n_def by (simp only: of_nat_nat)
  have n1: "z \<le> real n" unfolding rn by (rule le_of_int_ceiling)
  have n2: "real n - 1 < z" unfolding rn by linarith
  define k where "k = ilog2 (n - 1)"
  have "\<not> nat \<lceil>1 / y\<rceil> \<le> 1" using n0 unfolding n_def z_def by linarith
  then have b: "binade y = - int (Suc k)"
    using False unfolding binade_def k_def n_def z_def by (simp only: if_False)
  have p: "0 < n - 1" using n0 by simp
  have rm: "real (n - 1) = real n - 1" using n0 by (simp add: of_nat_diff)
  have lo: "(2::real) ^ k \<le> real n - 1" and hi: "real n \<le> 2 ^ Suc k"
    using ilog2_bounds_real[OF p] unfolding k_def[symmetric] rm by simp_all
  have zu: "z \<le> 2 ^ Suc k" using hi n1 by simp
  have zl: "2 ^ k < z" using lo n2 by simp
  have y: "1 / z = y" unfolding z_def by simp
  have b0: "pow2 (binade y) = 1 / 2 ^ Suc k" unfolding b by (rule pow2_neg)
  have "1 / 2 ^ Suc k \<le> 1 / z" using zu z by (intro divide_left_mono) simp_all
  moreover have "1 / z < 1 / 2 ^ k" using zl z by (intro divide_strict_left_mono) simp_all
  ultimately have "1 / 2 ^ Suc k \<le> y" "y < 1 / 2 ^ k" unfolding y by simp_all
  then show ?thesis unfolding b0 by simp
qed

lemma round_half_even_near: "\<bar>real_of_int (round_half_even t) - t\<bar> \<le> 1 / 2"
proof -
  have "real_of_int \<lfloor>t\<rfloor> \<le> t" "t < real_of_int \<lfloor>t\<rfloor> + 1" by linarith+
  then show ?thesis unfolding round_half_even_def Let_def by auto
qed

lemma round_double_near:
  assumes "y \<noteq> 0"
  shows "\<bar>round_double y - y\<bar> \<le> pow2 (max (binade \<bar>y\<bar>) (- 1022) - 52) / 2"
proof -
  define q where "q = pow2 (max (binade \<bar>y\<bar>) (- 1022) - 52)"
  have q: "0 < q" unfolding q_def by (rule pow2_pos)
  have r: "round_double y = q * real_of_int (round_half_even (y / q))"
    using assms by (simp add: round_double_def q_def Let_def)
  have "round_double y - y = q * (real_of_int (round_half_even (y / q)) - y / q)"
    unfolding r using q by (simp add: algebra_simps)
  then have "\<bar>round_double y - y\<bar> = q * \<bar>real_of_int (round_half_even (y / q)) - y / q\<bar>"
    using q by (simp add: abs_mult)
  also have "\<dots> \<le> q * (1 / 2)"
    using round_half_even_near[of "y / q"] q by (intro mult_left_mono) simp_all
  finally show ?thesis unfolding q_def by simp
qed

text \<open>Ties go to the even neighbour; \<open>0.1\<close> and \<open>2 - 2 ^ (- 70)\<close> round as in binary64.\<close>

lemma round_double_examples:
  "round_double (1 + 1 / 2 ^ 53) = 1"
  "round_double (1 + 3 / 2 ^ 53) = 1 + 1 / 2 ^ 51"
  "round_double (1 / 10) = 3602879701896397 / 2 ^ 55"
  "round_double (2 - 1 / 2 ^ 70) = 2"
  by code_simp+

lemma npy_remainder_examples:
  "npy_remainder (13 / 4) 2 = 5 / 4"
  "npy_remainder (15 / 4) (- 2) = - (1 / 4)"
  "npy_remainder (- (1 / 2 ^ 70)) 2 = 2"
  "npy_remainder (- (1 / 10 ^ 20)) 50 = 50"
  by code_simp+

section \<open>Properties of the mesh operators\<close>

lemma sp_diags_ok:
  "length ds = length offs \<Longrightarrow> distinct offs \<Longrightarrow> \<forall>off \<in> set offs. 0 \<le> diag_length n off \<Longrightarrow>
   sp_diags ds offs n =
     Inr (map (\<lambda>i. map (\<lambda>j. diags_entry ds offs (int j - int i)) [0..<nat n]) [0..<nat n])"
  by (auto simp: sp_diags_def)

lemma diags_entry_grad:
  "diags_entry [-1, 1] [0, 1] k = (if k = 0 then -1 else if k = 1 then 1 else 0)"
  by (simp add: diags_entry_def)

lemma diags_entry_lap:
  "diags_entry [1, -2, 1] [-1, 0, 1] k =
     (if k = -1 then 1 else if k = 0 then -2 else if k = 1 then 1 else 0)"
  by (simp add: diags_entry_def)

lemma diags_entry_corner:
  "diags_entry [1, 1] [- n + 1, n - 1] k = (if k = - n + 1 then 1 else if k = n - 1 then 1 else 0)"
  by (simp add: diags_entry_def)

lemma mat_div_ok: "c \<noteq> 0 \<Longrightarrow> mat_div M c = Inr (map (map (\<lambda>x. x * (1 / c))) M)"
  by (simp add: mat_div_def)

text \<open>For at least two cells and a box of non-zero length the construction succeeds.\<close>

lemma create_matrices_ok:
  assumes "2 \<le> Nx" "boxsize \<noteq> 0"
  shows "create_matrices Nx boxsize =
     Inr (map (\<lambda>i. map (\<lambda>j. diags_entry [-1, 1] [0, 1] (int j - int i)
                               * (1 / (boxsize / real_of_int Nx))) [0..<nat Nx]) [0..<nat Nx],
          mat_add
            (map (\<lambda>i. map (\<lambda>j. diags_entry [1, -2, 1] [-1, 0, 1] (int j - int i)
                               * (1 / (boxsize / real_of_int Nx) ^ 2)) [0..<nat Nx]) [0..<nat Nx])
            (map (\<lambda>i. map (\<lambda>j. diags_entry [1, 1] [- Nx + 1, Nx - 1] (int j - int i)
                               * (1 / (boxsize / real_of_int Nx) ^ 2)) [0..<nat Nx]) [0..<nat Nx]))"
proof -
  have dx: "boxsize / real_of_int Nx \<noteq> 0" using assms by simp
  then have dx2: "(boxsize / real_of_int Nx) ^ 2 \<noteq> 0" by simp
  have d1: "sp_diags [-1, 1] [0, 1] Nx =
      Inr (map (\<lambda>i. map (\<lambda>j. diags_entry [-1, 1] [0, 1] (int j - int i)) [0..<nat Nx]) [0..<nat Nx])"
    using assms(1) by (intro sp_diags_ok) (simp_all add: diag_length_def)
  have d2: "sp_diags [1, -2, 1] [-1, 0, 1] Nx =
      Inr (map (\<lambda>i. map (\<lambda>j. diags_entry [1, -2, 1] [-1, 0, 1] (int j - int i)) [0..<nat Nx])
             [0..<nat Nx])"
    using assms(1) by (intro sp_diags_ok) (simp_all add: diag_length_def)
  have d3: "sp_diags [1, 1] [- Nx + 1, Nx - 1] Nx =
      Inr (map (\<lambda>i. map (\<lambda>j. diags_entry [1, 1] [- Nx + 1, Nx - 1] (int j - int i)) [0..<nat Nx])
             [0..<nat Nx])"
    using assms(1) by (intro sp_diags_ok) (simp_all add: diag_length_def)
  have p: "py_div boxsize (real_of_int Nx) = Inr (boxsize / real_of_int Nx)"
    using assms(1) by (simp add: py_div_def)
  show ?thesis
    unfolding create_matrices_def p d1 d2 d3 bindE_def sum.case mat_div_ok[OF dx] mat_div_ok[OF dx2]
    by (simp only: map_map o_def)
qed

lemma create_matrices_shape:
  assumes "2 \<le> Nx" "boxsize \<noteq> 0" "create_matrices Nx boxsize = Inr (G, L)"
  shows "length G = nat Nx" "length L = nat Nx"
    "i < nat Nx \<Longrightarrow> length (G ! i) = nat Nx" "i < nat Nx \<Longrightarrow> length (L ! i) = nat Nx"
  using assms(3) unfolding create_matrices_ok[OF assms(1,2)] mat_add_def by auto

text \<open>
  The gradient as built: \<open>-1/dx\<close> on the diagonal, \<open>+1/dx\<close> on the first superdiagonal and
  zero elsewhere, so the last row has no entry in column 0.
\<close>

lemma gradient_entry:
  assumes "2 \<le> Nx" "boxsize \<noteq> 0" "create_matrices Nx boxsize = Inr (G, L)"
    "i < nat Nx" "j < nat Nx"
  shows "G ! i ! j = (if j = i then - 1 / (boxsize / real_of_int Nx)
                      else if j = i + 1 then 1 / (boxsize / real_of_int Nx) else 0)"
proof -
  have G: "G = map (\<lambda>i. map (\<lambda>j. diags_entry [-1, 1] [0, 1] (int j - int i)
                               * (1 / (boxsize / real_of_int Nx))) [0..<nat Nx]) [0..<nat Nx]"
    using assms(3) unfolding create_matrices_ok[OF assms(1,2)] by simp
  have "G ! i ! j = diags_entry [-1, 1] [0, 1] (int j - int i) * (1 / (boxsize / real_of_int Nx))"
    unfolding G using assms(4,5) by simp
  also have "\<dots> = (if j = i then - 1 / (boxsize / real_of_int Nx)
                    else if j = i + 1 then 1 / (boxsize / real_of_int Nx) else 0)"
    unfolding diags_entry_grad by auto
  finally show ?thesis .
qed

lemma laplacian_entry:
  assumes "2 \<le> Nx" "boxsize \<noteq> 0" "create_matrices Nx boxsize = Inr (G, L)"
    "i < nat Nx" "j < nat Nx"
  shows "L ! i ! j = (diags_entry [1, -2, 1] [-1, 0, 1] (int j - int i)
                      + diags_entry [1, 1] [- Nx + 1, Nx - 1] (int j - int i))
                     / (boxsize / real_of_int Nx) ^ 2"
proof -
  have L: "L = mat_add
            (map (\<lambda>i. map (\<lambda>j. diags_entry [1, -2, 1] [-1, 0, 1] (int j - int i)
                               * (1 / (boxsize / real_of_int Nx) ^ 2)) [0..<nat Nx]) [0..<nat Nx])
            (map (\<lambda>i. map (\<lambda>j. diags_entry [1, 1] [- Nx + 1, Nx - 1] (int j - int i)
                               * (1 / (boxsize / real_of_int Nx) ^ 2)) [0..<nat Nx]) [0..<nat Nx])"
    using assms(3) unfolding create_matrices_ok[OF assms(1,2)] by simp
  show ?thesis
    unfolding L mat_add_def using assms(4,5) by (simp add: add_divide_distrib)
qed

lemma stencil_cases:
  fixes p1 p2 p3 p4 p5 :: bool
  assumes "\<not> (p1 \<and> p2)" "\<not> (p1 \<and> p3)" "\<not> (p1 \<and> p4)" "\<not> (p1 \<and> p5)" "\<not> (p2 \<and> p3)"
    "\<not> (p2 \<and> p4)" "\<not> (p2 \<and> p5)" "\<not> (p3 \<and> p4)" "\<not> (p3 \<and> p5)" "\<not> (p4 \<and> p5)"
  shows "(if p1 then 1 else if p2 then - 2 else if p3 then 1 else 0)
           + (if p4 then 1 else if p5 then 1 else 0)
       = (if p2 then - 2 else if (p3 \<or> p4) \<or> (p1 \<or> p5) then 1 else (0::real))"
  using assms by (cases p1; cases p2; cases p3; cases p4; cases p5; simp)

lemma laplacian_row:
  assumes "3 \<le> Nx" "boxsize \<noteq> 0" "create_matrices Nx boxsize = Inr (G, L)"
    "i < nat Nx" "j < nat Nx"
  shows "L ! i ! j =
     (if j = i then - 2 / (boxsize / real_of_int Nx) ^ 2
      else if j = (i + 1) mod nat Nx \<or> j = (i + nat Nx - 1) mod nat Nx
           then 1 / (boxsize / real_of_int Nx) ^ 2 else 0)"
proof -
  define p1 where "p1 \<longleftrightarrow> i = j + 1"
  define p2 where "p2 \<longleftrightarrow> j = i"
  define p3 where "p3 \<longleftrightarrow> j = i + 1"
  define p4 where "p4 \<longleftrightarrow> j = 0 \<and> i + 1 = nat Nx"
  define p5 where "p5 \<longleftrightarrow> i = 0 \<and> j + 1 = nat Nx"
  have 2: "2 \<le> Nx" using assms(1) by simp
  have n3: "3 \<le> nat Nx" using assms(1) by linarith
  have m1: "j = (i + 1) mod nat Nx \<longleftrightarrow> p3 \<or> p4"
  proof (cases "i + 1 = nat Nx")
    case True
    then show ?thesis using assms(5) by (simp add: p3_def p4_def)
  next
    case False
    then have "(i + 1) mod nat Nx = i + 1" using assms(4) by simp
    then show ?thesis using False by (simp add: p3_def p4_def)
  qed
  have m2: "j = (i + nat Nx - 1) mod nat Nx \<longleftrightarrow> p1 \<or> p5"
  proof (cases i)
    case 0
    then have "(i + nat Nx - 1) mod nat Nx = nat Nx - 1" using n3 by simp
    then show ?thesis using 0 n3 unfolding p1_def p5_def by linarith
  next
    case (Suc k)
    then have "i + nat Nx - 1 = k + nat Nx" by simp
    then have "(i + nat Nx - 1) mod nat Nx = k" using Suc assms(4) by simp
    then show ?thesis using Suc unfolding p1_def p5_def by linarith
  qed
  have k1: "int j - int i = - 1 \<longleftrightarrow> p1" unfolding p1_def by linarith
  have k2: "int j - int i = 0 \<longleftrightarrow> p2" unfolding p2_def by linarith
  have k3: "int j - int i = 1 \<longleftrightarrow> p3" unfolding p3_def by linarith
  have k4: "int j - int i = - Nx + 1 \<longleftrightarrow> p4"
    unfolding p4_def using assms(1,4,5) by linarith
  have k5: "int j - int i = Nx - 1 \<longleftrightarrow> p5"
    unfolding p5_def using assms(1,4,5) by linarith
  have x: "\<not> (p1 \<and> p2)" "\<not> (p1 \<and> p3)" "\<not> (p1 \<and> p4)" "\<not> (p1 \<and> p5)" "\<not> (p2 \<and> p3)"
    "\<not> (p2 \<and> p4)" "\<not> (p2 \<and> p5)" "\<not> (p3 \<and> p4)" "\<not> (p3 \<and> p5)" "\<not> (p4 \<and> p5)"
    unfolding p1_def p2_def p3_def p4_def p5_def using n3 by linarith+
  have e: "diags_entry [1, -2, 1] [-1, 0, 1] (int j - int i)
             + diags_entry [1, 1] [- Nx + 1, Nx - 1] (int j - int i)
        = (if p2 then - 2 else if (p3 \<or> p4) \<or> (p1 \<or> p5) then 1 else 0)"
    unfolding diags_entry_lap diags_entry_corner k1 k2 k3 k4 k5 by (rule stencil_cases[OF x])
  have "L ! i ! j = (if p2 then - 2 else if (p3 \<or> p4) \<or> (p1 \<or> p5) then 1 else 0)
                     / (boxsize / real_of_int Nx) ^ 2"
    unfolding laplacian_entry[OF 2 assms(2,3,4,5)] e ..
  also have "\<dots> = (if p2 then - 2 / (boxsize / real_of_int Nx) ^ 2
      else if (p3 \<or> p4) \<or> (p1 \<or> p5) then 1 / (boxsize / real_of_int Nx) ^ 2 else 0)"
    by simp
  finally show ?thesis unfolding m1 m2 unfolding p2_def .
qed

text \<open>
  C1. Every row of the gradient operator, the last one included, should have \<open>-1/dx\<close> in
  column \<open>i\<close> and \<open>+1/dx\<close> in column \<open>(i + 1) mod Nx\<close>. The operator that
  \<open>create_matrices\<close> builds has no wrapped entry: for four cells of width one, row 3 is
  \<open>[0, 0, 0, -1]\<close>, with 0 and not \<open>+1\<close> in column 0, while the Laplacian built beside
  it does wrap.
\<close>

theorem gradient_last_row_no_wrap:
  "create_matrices 4 4 =
     Inr ([[-1, 1, 0, 0], [0, -1, 1, 0], [0, 0, -1, 1], [0, 0, 0, -1]],
          [[-2, 1, 0, 1], [1, -2, 1, 0], [0, 1, -2, 1], [1, 0, 1, -2]])"
  by (simp add: create_matrices_def bindE_def py_div_def sp_diags_def diag_length_def
       diags_entry_def mat_div_def mat_add_def upt_conv_Cons)

text \<open>
  C4. The electric field \<open>-Gmtx @ phi\<close> should sum to zero for every potential. With the
  gradient as built, column 0 does not sum to zero: for three cells of width one and the
  potential \<open>[1, 2, 3]\<close> the field is \<open>[-1, -1, 3]\<close>, whose sum is 1.
\<close>

theorem field_mean_nonzero:
  "bindE (create_matrices 3 3) (\<lambda>(Gmtx, Lmtx). matvec (mat_neg Gmtx) [1, 2, 3])
     = Inr [-1, -1, 3]
   \<and> sum_list [-1, -1, 3 :: real] = 1"
  by (simp add: create_matrices_def bindE_def py_div_def sp_diags_def diag_length_def
       diags_entry_def mat_div_def mat_add_def upt_conv_Cons matvec_def mat_neg_def)

text \<open>
  C8, as amended. For at least three cells and a box of positive length, row \<open>i\<close> of the
  Laplacian has \<open>-2/dx\<^sup>2\<close> in column \<open>i\<close>, \<open>+1/dx\<^sup>2\<close> in columns \<open>(i - 1) mod Nx\<close> and
  \<open>(i + 1) mod Nx\<close>, and zero in every other column.
\<close>

theorem laplacian_periodic_stencil:
  assumes "3 \<le> Nx" "0 < boxsize" "i < nat Nx" "j < nat Nx"
  shows "\<exists>G L. create_matrices Nx boxsize = Inr (G, L) \<and> length L = nat Nx
           \<and> length (L ! i) = nat Nx
           \<and> L ! i ! j =
               (if j = i then - 2 / (boxsize / real_of_int Nx) ^ 2
                else if int j = (int i - 1) mod Nx \<or> int j = (int i + 1) mod Nx
                     then 1 / (boxsize / real_of_int Nx) ^ 2 else 0)"
proof -
  have 2: "2 \<le> Nx" and nz: "boxsize \<noteq> 0" using assms(1,2) by simp_all
  obtain G L where c: "create_matrices Nx boxsize = Inr (G, L)"
    using create_matrices_ok[OF 2 nz] by blast
  have pos: "0 < Nx" using assms(1) by simp
  have "int (i + 1) = int i + 1" by simp
  then have a: "int ((i + 1) mod nat Nx) = (int i + 1) mod Nx"
    using pos by (simp only: zmod_int int_nat_eq) simp
  have "int (i + nat Nx - 1) = int i - 1 + Nx" using pos by linarith
  then have b: "int ((i + nat Nx - 1) mod nat Nx) = (int i - 1) mod Nx"
    using pos by (simp only: zmod_int int_nat_eq) simp
  have a': "int j = (int i + 1) mod Nx \<longleftrightarrow> j = (i + 1) mod nat Nx"
    unfolding a[symmetric] by simp
  have b': "int j = (int i - 1) mod Nx \<longleftrightarrow> j = (i + nat Nx - 1) mod nat Nx"
    unfolding b[symmetric] by simp
  show ?thesis
    using c create_matrices_shape(2,4)[OF 2 nz c] laplacian_row[OF assms(1) nz c assms(3,4)]
      assms(3)
    unfolding a' b' by (intro exI[of _ G] exI[of _ L]) (simp add: disj_commute)
qed

theorem laplacian_periodic_stencil_witness:
  "(3::int) \<le> 3 \<and> (0::real) < 6 \<and> (0::nat) < nat 3 \<and> (2::nat) < nat 3
   \<and> (\<exists>G L. create_matrices 3 6 = Inr (G, L) \<and> length L = nat 3
           \<and> length (L ! 0) = nat 3 \<and> L ! 0 ! 2 = 1 / 4)"
  using laplacian_periodic_stencil[of 3 6 0 2] by simp

text \<open>
  With two cells the left and the right neighbour of a cell are the same cell, and the
  entry there is \<open>2/dx\<^sup>2\<close>, not \<open>1/dx\<^sup>2\<close>.
\<close>

theorem laplacian_two_cells_counterexample:
  "create_matrices 2 2 = Inr ([[-1, 1], [0, -1]], [[-2, 2], [2, -2]])
   \<and> [[-2, 2], [2, -2]] ! 0 ! nat ((0 + 1) mod 2) \<noteq> (1::real) / (2 / 2) ^ 2"
  by (simp add: create_matrices_def bindE_def py_div_def sp_diags_def diag_length_def
       diags_entry_def mat_div_def mat_add_def upt_conv_Cons)

section \<open>Properties of the deposition\<close>

lemma bindE_Inr: "bindE (Inr x) f = f x"
  by (simp add: bindE_def)

lemma bindE_Inl: "bindE (Inl e) f = Inl e"
  by (simp add: bindE_def)

lemma bindE_InrE:
  assumes "bindE m f = Inr y"
  obtains x where "m = Inr x" "f x = Inr y"
  using assms unfolding bindE_def by (cases m) simp_all

lemma py_div_Inr: "py_div a b = Inr c \<Longrightarrow> b \<noteq> 0 \<and> c = a / b"
  unfolding py_div_def by (simp split: if_splits)

lemma arr_div_Inr: "arr_div xs c = Inr ys \<Longrightarrow> (c \<noteq> 0 \<or> xs = []) \<and> ys = map (\<lambda>x. x / c) xs"
  unfolding arr_div_def by (simp split: if_splits)

lemma iadd_Inr: "iadd a ys h = Inr h2 \<Longrightarrow> \<exists>v. h2 = h[a := v] \<and> length v = length (h ! a)"
  unfolding iadd_def Let_def by (auto split: if_splits)

lemma bincount_Inr_minlength: "bincount x ws m = Inr out \<Longrightarrow> 0 \<le> m"
  unfolding bincount_def by (simp split: if_splits)

lemma getAcc_deposit_Inr:
  assumes "getAcc_deposit pos Nx boxsize n0 h = Inr (d, h')"
  shows "h ! pos \<noteq> []" "0 < Nx" "boxsize \<noteq> 0" "dep_n d = length h" "\<exists>v. h' = h @ [v]"
    "length (dep_j d) = length (h ! pos)" "length (dep_jp1 d) = length (h ! pos)"
    "length (dep_weight_j d) = length (h ! pos)" "length (dep_weight_jp1 d) = length (h ! pos)"
proof -
  from assms obtain dx q wj wjp b b' h2 c c' where
    dx: "py_div boxsize (real_of_int Nx) = Inr dx"
    and q: "arr_div (h ! pos) dx = Inr q"
    and wj: "arr_div (map2 (\<lambda>k p. real_of_int k * dx - p) (map (\<lambda>k. k + 1) (map floor q)) (h ! pos)) dx = Inr wj"
    and wjp: "arr_div (map2 (\<lambda>p k. p - real_of_int k * dx) (h ! pos) (map floor q)) dx = Inr wjp"
    and b: "bincount (map floor q) wj Nx = Inr b"
    and b': "bincount (map (\<lambda>k. k mod Nx) (map (\<lambda>k. k + 1) (map floor q))) wjp Nx = Inr b'"
    and h2: "iadd (length h) b' (h @ [b]) = Inr h2"
    and c: "py_div (n0 * boxsize) (real (length (h ! pos))) = Inr c"
    and c': "py_div c dx = Inr c'"
    and d: "d = \<lparr>dep_j = map floor q, dep_jp1 = map (\<lambda>k. k mod Nx) (map (\<lambda>k. k + 1) (map floor q)),
               dep_weight_j = wj, dep_weight_jp1 = wjp, dep_n = length h\<rparr>"
    and h': "h' = imul (length h) c' h2"
    unfolding getAcc_deposit_def Let_def alloc_def prod.case
    by (elim bindE_InrE) auto
  show ne: "h ! pos \<noteq> []" using py_div_Inr[OF c] by auto
  have "Nx \<noteq> 0" using py_div_Inr[OF dx] by simp
  then show "0 < Nx" using bincount_Inr_minlength[OF b] by simp
  have "dx \<noteq> 0" "dx = boxsize / real_of_int Nx" using py_div_Inr[OF c'] py_div_Inr[OF dx] by simp_all
  then show "boxsize \<noteq> 0" by auto
  show "dep_n d = length h" unfolding d by simp
  obtain v where "h2 = (h @ [b])[length h := v]" using iadd_Inr[OF h2] by blast
  then show "\<exists>v. h' = h @ [v]" unfolding h' imul_def by simp
  have lq: "length q = length (h ! pos)" using arr_div_Inr[OF q] by simp
  show "length (dep_j d) = length (h ! pos)" "length (dep_jp1 d) = length (h ! pos)"
    unfolding d using lq by simp_all
  show "length (dep_weight_j d) = length (h ! pos)" "length (dep_weight_jp1 d) = length (h ! pos)"
    unfolding d using lq arr_div_Inr[OF wj] arr_div_Inr[OF wjp] by simp_all
qed


text \<open>
  One particle at 0 in a box of length 1 with two cells: every operation of the deposition
  is exact on these operands, and the density is \<open>[2, 0]\<close>.
\<close>

lemma deposit_single_particle:
  "getAcc_deposit 0 2 1 1 [[0]]
     = Inr (\<lparr>dep_j = [0], dep_jp1 = [1], dep_weight_j = [1], dep_weight_jp1 = [0], dep_n = 1\<rparr>,
            [[0], [2, 0]])"
  by code_simp

text \<open>
  C7. A position equal to \<open>boxsize\<close> should be deposited at node 0 with every index in
  \<open>0..Nx-1\<close>. In the code the left index is \<open>floor(boxsize / dx) = Nx\<close>: the first
  \<open>bincount\<close> returns an array of length \<open>Nx + 1\<close> with the weight at index \<open>Nx\<close>, and
  adding the second one, of length \<open>Nx\<close>, is refused.
\<close>

theorem deposit_at_boxsize:
  "map floor [2 / (2 / 2 :: real)] = [2 :: int]
   \<and> bincount [2] [1] 2 = Inr [0, 0, 1]
   \<and> getAcc_deposit 0 2 2 1 [[2]] = Inl ValueError"
  by code_simp

section \<open>Properties of the acceleration\<close>

lemma take_idx_Inr: "take_idx xs ks = Inr ys \<Longrightarrow> length ys = length ks"
  unfolding take_idx_def by (auto split: if_splits)

lemma getAcc_Inr:
  assumes "getAcc spsolve pos Nx boxsize n0 Gmtx Lmtx h = Inr (a, h')"
  shows "\<exists>v. h' = h @ [v]" "length a = length (h ! pos)" "boxsize \<noteq> 0"
proof -
  from assms obtain d h1 where
    dep0: "getAcc_deposit pos Nx boxsize n0 h = Inr (d, h1)"
    and rest: "bindE (spsolve Lmtx (map (\<lambda>x. x - n0) (h1 ! dep_n d))) (\<lambda>phi_grid.
               bindE (matvec (mat_neg Gmtx) phi_grid) (\<lambda>E_grid.
               bindE (take_idx E_grid (dep_j d)) (\<lambda>Ej.
               bindE (take_idx E_grid (dep_jp1 d)) (\<lambda>Ejp1.
               Inr (map uminus (map2 (+) (map2 (*) (dep_weight_j d) Ej)
                                         (map2 (*) (dep_weight_jp1 d) Ejp1)), h1)))))
             = Inr (a, h')"
    unfolding getAcc_def Let_def
    by (elim bindE_InrE) (auto simp: case_prod_beta)
  from rest obtain Ej Ejp1 E_grid where
    Ej: "take_idx E_grid (dep_j d) = Inr Ej"
    and Ejp1: "take_idx E_grid (dep_jp1 d) = Inr Ejp1"
    and a: "a = map uminus (map2 (+) (map2 (*) (dep_weight_j d) Ej)
                                     (map2 (*) (dep_weight_jp1 d) Ejp1))"
    and h1: "h1 = h'"
    by (elim bindE_InrE) auto
  have dep: "getAcc_deposit pos Nx boxsize n0 h = Inr (d, h')" using dep0 h1 by simp
  show "\<exists>v. h' = h @ [v]" by (rule getAcc_deposit_Inr(5)[OF dep])
  show "boxsize \<noteq> 0" by (rule getAcc_deposit_Inr(3)[OF dep])
  show "length a = length (h ! pos)"
    unfolding a using take_idx_Inr[OF Ej] take_idx_Inr[OF Ejp1] getAcc_deposit_Inr(6-9)[OF dep]
    by simp
qed

text \<open>
  C10. \<open>getAcc\<close> returns the acceleration without changing any array that existed when it
  was called, the position array included: the only array it writes in place is its own
  fresh \<open>n\<close>. After a successful call the store is the old store with new cells appended.
\<close>

theorem getAcc_frame:
  assumes "getAcc spsolve pos Nx boxsize n0 Gmtx Lmtx h = Inr (a, h')"
  shows "length h \<le> length h' \<and> take (length h) h' = h"
  using getAcc_Inr(1)[OF assms] by auto

theorem getAcc_frame_witness:
  "getAcc (\<lambda>L b. Inr b) 0 2 2 1 [[-1, 1], [0, -1]] [[-2, 2], [2, -2]] [[1 / 2, 3 / 2], [3, 4]]
     = Inr ([0, 0], [[1 / 2, 3 / 2], [3, 4], [1, 1]])
   \<and> length [[1 / 2, 3 / 2], [3, 4 :: real]] \<le> length [[1 / 2, 3 / 2], [3, 4], [1, 1 :: real]]
   \<and> take (length [[1 / 2, 3 / 2], [3, 4 :: real]]) [[1 / 2, 3 / 2], [3, 4], [1, 1]]
       = [[1 / 2, 3 / 2], [3, 4 :: real]]"
proof -
  have e: "getAcc (\<lambda>L b. Inr b) 0 2 2 1 [[-1, 1], [0, -1]] [[-2, 2], [2, -2]]
             [[1 / 2, 3 / 2], [3, 4]] = Inr ([0, 0], [[1 / 2, 3 / 2], [3, 4], [1, 1]])"
    by code_simp
  from getAcc_frame[OF e] e show ?thesis by simp
qed

section \<open>Properties of the driver\<close>

lemma np_mod_ok:
  "c \<noteq> 0 \<Longrightarrow> np_mod xs c = Inr (map (\<lambda>x. npy_remainder x c) xs)"
  by (simp add: np_mod_def)

lemma iadd_same_length:
  "length ys = length (h ! a) \<Longrightarrow> iadd a ys h = Inr (h[a := map2 (+) (h ! a) ys])"
  by (simp add: iadd_def)

lemma map2_add_scaled:
  "map2 (+) xs (map (\<lambda>y. c * y) ys) = map2 (\<lambda>x y. x + c * (y::real)) xs ys"
  by (auto simp: zip_map2)

text \<open>
  C5. One pass of the loop body, when the acceleration computed by \<open>getAcc\<close> from the
  positions before the update is \<open>a\<close>: the new positions are
  \<open>mod(pos + dt * vel, boxsize)\<close>, with \<open>np.mod\<close> as NumPy computes it, the new velocities
  \<open>vel + dt * a\<close>, and the clock advances by \<open>dt\<close>. The position and velocity arrays are
  distinct arrays of the same length.
\<close>

theorem step_update_order:
  assumes g: "getAcc spsolve (st_pos s) (cfg_Nx cfg) (cfg_boxsize cfg) (cfg_n0 cfg) Gmtx Lmtx
                (st_heap s) = Inr (a, h1)"
    and p: "st_pos s < length (st_heap s)" and v: "st_vel s < length (st_heap s)"
    and pv: "st_pos s \<noteq> st_vel s"
    and len: "length (st_heap s ! st_vel s) = length (st_heap s ! st_pos s)"
  shows "\<exists>s'. step spsolve cfg Gmtx Lmtx s = Inr s'
           \<and> st_heap s' ! st_pos s'
               = map (\<lambda>x. npy_remainder x (cfg_boxsize cfg))
                   (map2 (\<lambda>x u. x + cfg_dt cfg * u) (st_heap s ! st_pos s) (st_heap s ! st_vel s))
           \<and> st_heap s' ! st_vel s'
               = map2 (\<lambda>u w. u + cfg_dt cfg * w) (st_heap s ! st_vel s) a
           \<and> st_vel s' = st_vel s \<and> st_t s' = st_t s + cfg_dt cfg"
proof -
  define P where "P = st_heap s ! st_pos s"
  define V where "V = st_heap s ! st_vel s"
  obtain n where h1: "h1 = st_heap s @ [n]" using getAcc_Inr(1)[OF g] by blast
  have la: "length a = length P" using getAcc_Inr(2)[OF g] unfolding P_def .
  have bz: "cfg_boxsize cfg \<noteq> 0" by (rule getAcc_Inr(3)[OF g])
  have r1: "h1 ! st_pos s = P" "h1 ! st_vel s = V"
    unfolding h1 P_def V_def using p v by (simp_all add: nth_append)
  define P' where "P' = map2 (\<lambda>x u. x + cfg_dt cfg * u) P V"
  define h2 where "h2 = h1[st_pos s := P']"
  have i1: "iadd (st_pos s) (map (\<lambda>v. cfg_dt cfg * v) (h1 ! st_vel s)) h1 = Inr h2"
    unfolding h2_def P'_def using len r1
    by (simp add: iadd_same_length map2_add_scaled P_def V_def)
  have r2: "h2 ! st_vel s = V" "h2 ! st_pos s = P'"
    unfolding h2_def using pv r1 p h1 by simp_all
  define V' where "V' = map2 (\<lambda>u w. u + cfg_dt cfg * w) V a"
  define h3 where "h3 = h2[st_vel s := V']"
  have i2: "iadd (st_vel s) (map (\<lambda>x. cfg_dt cfg * x) a) h2 = Inr h3"
    unfolding h3_def V'_def using la len r2
    by (simp add: iadd_same_length map2_add_scaled P_def V_def)
  have r3: "h3 ! st_pos s = P'" "h3 ! st_vel s = V'" "st_vel s < length h3"
    unfolding h3_def using pv r2 v h1 by (simp_all add: h2_def)
  define W where "W = map (\<lambda>x. npy_remainder x (cfg_boxsize cfg)) P'"
  have m: "np_mod (h3 ! st_pos s) (cfg_boxsize cfg) = Inr W"
    unfolding W_def r3 by (rule np_mod_ok[OF bz])
  define s' where "s' = s\<lparr>st_pos := length h3, st_t := st_t s + cfg_dt cfg, st_heap := h3 @ [W]\<rparr>"
  have "step spsolve cfg Gmtx Lmtx s = Inr s'"
    unfolding step_def g bindE_Inr prod.case i1 i2 m alloc_def Let_def s'_def ..
  moreover have "st_heap s' ! st_pos s' = W" unfolding s'_def by simp
  moreover have "st_heap s' ! st_vel s' = V'"
    unfolding s'_def using r3 by (simp add: nth_append)
  moreover have "st_vel s' = st_vel s" "st_t s' = st_t s + cfg_dt cfg"
    unfolding s'_def by simp_all
  ultimately show ?thesis
    unfolding W_def P'_def V'_def P_def V_def by blast
qed

theorem step_update_order_witness:
  "getAcc (\<lambda>L b. Inr b) 0 2 2 1 [[-1, 1], [0, -1]] [[-2, 2], [2, -2]] [[1 / 4, 1 / 4], [3, -4]]
     = Inr ([- (5 / 8), - (5 / 8)], [[1 / 4, 1 / 4], [3, -4], [3 / 2, 1 / 2]])
   \<and> (\<exists>s'. step (\<lambda>L b. Inr b)
              \<lparr>cfg_N = 2, cfg_Nx = 2, cfg_tEnd = 1, cfg_dt = 1, cfg_boxsize = 2, cfg_n0 = 1,
               cfg_vb = 3, cfg_vth = 1\<rparr>
              [[-1, 1], [0, -1]] [[-2, 2], [2, -2]]
              \<lparr>st_pos = 0, st_vel = 1, st_t = 0, st_heap = [[1 / 4, 1 / 4], [3, -4]]\<rparr> = Inr s'
           \<and> st_heap s' ! st_pos s' = [5 / 4, 1 / 4]
           \<and> st_heap s' ! st_vel s' = [19 / 8, - (37 / 8)]
           \<and> st_vel s' = 1 \<and> st_t s' = 1)"
proof -
  have e: "getAcc (\<lambda>L b. Inr b) 0 2 2 1 [[-1, 1], [0, -1]] [[-2, 2], [2, -2]]
             [[1 / 4, 1 / 4], [3, -4]]
           = Inr ([- (5 / 8), - (5 / 8)], [[1 / 4, 1 / 4], [3, -4], [3 / 2, 1 / 2]])"
    by code_simp
  have r: "npy_remainder (13 / 4) 2 = 5 / 4" "npy_remainder (- (15 / 4)) 2 = 1 / 4"
    by code_simp+
  have "\<exists>s'. step (\<lambda>L b. Inr b)
              \<lparr>cfg_N = 2, cfg_Nx = 2, cfg_tEnd = 1, cfg_dt = 1, cfg_boxsize = 2, cfg_n0 = 1,
               cfg_vb = 3, cfg_vth = 1\<rparr>
              [[-1, 1], [0, -1]] [[-2, 2], [2, -2]]
              \<lparr>st_pos = 0, st_vel = 1, st_t = 0, st_heap = [[1 / 4, 1 / 4], [3, -4]]\<rparr> = Inr s'
           \<and> st_heap s' ! st_pos s' = [5 / 4, 1 / 4]
           \<and> st_heap s' ! st_vel s' = [19 / 8, - (37 / 8)]
           \<and> st_vel s' = 1 \<and> st_t s' = 1"
    using step_update_order[of "\<lambda>L b. Inr b"
        "\<lparr>st_pos = 0, st_vel = 1, st_t = 0, st_heap = [[1 / 4, 1 / 4], [3, -4]]\<rparr>"
        "\<lparr>cfg_N = 2, cfg_Nx = 2, cfg_tEnd = 1, cfg_dt = 1, cfg_boxsize = 2, cfg_n0 = 1,
          cfg_vb = 3, cfg_vth = 1\<rparr>"
        "[[-1, 1], [0, -1]]" "[[-2, 2], [2, -2]]" "[- (5 / 8), - (5 / 8)]"
        "[[1 / 4, 1 / 4], [3, -4], [3 / 2, 1 / 2]]"] e
    by (simp add: r)
  with e show ?thesis by simp
qed

text \<open>
  C6. After a timestep every position should lie in \<open>[0, boxsize)\<close>. A raw update just
  below zero breaks this: with a particle at 0 moving at \<open>-2 ^ (- 70)\<close> in a box of length
  2, \<open>np.mod\<close> adds 2 to the remainder \<open>-2 ^ (- 70)\<close> and the sum rounds to 2, so the new
  position is \<open>boxsize\<close> itself. The next pass of the loop then fails in the deposition.
\<close>

theorem position_reaches_boxsize:
  "step (\<lambda>L b. Inr b)
     \<lparr>cfg_N = 2, cfg_Nx = 2, cfg_tEnd = 2, cfg_dt = 1, cfg_boxsize = 2, cfg_n0 = 1,
      cfg_vb = 3, cfg_vth = 1\<rparr>
     [[-1, 1], [0, -1]] [[-2, 2], [2, -2]]
     \<lparr>st_pos = 0, st_vel = 1, st_t = 0, st_heap = [[0, 1], [- (1 / 2 ^ 70), 0]]\<rparr>
   = Inr \<lparr>st_pos = 3, st_vel = 1, st_t = 1,
          st_heap = [[- (1 / 2 ^ 70), 1], [- (1 / 2 ^ 70), 0], [1, 1], [2, 1]]\<rparr>
   \<and> step (\<lambda>L b. Inr b)
     \<lparr>cfg_N = 2, cfg_Nx = 2, cfg_tEnd = 2, cfg_dt = 1, cfg_boxsize = 2, cfg_n0 = 1,
      cfg_vb = 3, cfg_vth = 1\<rparr>
     [[-1, 1], [0, -1]] [[-2, 2], [2, -2]]
     \<lparr>st_pos = 3, st_vel = 1, st_t = 1,
      st_heap = [[- (1 / 2 ^ 70), 1], [- (1 / 2 ^ 70), 0], [1, 1], [2, 1]]\<rparr>
   = Inl ValueError"
  by code_simp

lemma sp_diags_negative: "n < 0 \<Longrightarrow> sp_diags [-1, 1] [0, 1] n = Inl ValueError"
  by (simp add: sp_diags_def diag_length_def)

lemma create_matrices_no_cells:
  assumes "Nx \<le> 0"
  shows "\<exists>e. create_matrices Nx boxsize = Inl e"
proof (cases "Nx = 0")
  case True
  then show ?thesis by (simp add: create_matrices_def py_div_def bindE_def)
next
  case False
  then have "Nx < 0" using assms by simp
  then show ?thesis
    by (simp add: create_matrices_def py_div_def bindE_def sp_diags_negative)
qed

lemma create_matrices_no_box: "\<exists>e. create_matrices Nx 0 = Inl e"
proof (cases "sp_diags [-1, 1] [0, 1] Nx")
  case (Inl e)
  then show ?thesis by (simp add: create_matrices_def py_div_def bindE_def)
next
  case (Inr G0)
  then show ?thesis by (simp add: create_matrices_def py_div_def bindE_def mat_div_def)
qed

text \<open>
  C9, as amended. The program has no validation step. A negative particle count, a
  non-positive number of cells or an empty box stops the program with an error raised by
  the sampler or by \<open>create_matrices\<close>, before the loop is entered: the result does not
  depend on the fuel given to the loop, and is an error even with none.
\<close>

theorem invalid_mesh_aborts_before_loop:
  assumes "cfg_N cfg < 0 \<or> cfg_Nx cfg \<le> 0 \<or> cfg_boxsize cfg = 0"
  shows "\<exists>e. \<forall>fuel. main fuel spsolve rand randn cfg = Some (Inl e)"
proof (cases "cfg_N cfg < 0")
  case True
  then show ?thesis by (simp add: main_def sample_def bindE_def)
next
  case False
  then obtain e where "create_matrices (cfg_Nx cfg) (cfg_boxsize cfg) = Inl e"
    using assms create_matrices_no_cells[of "cfg_Nx cfg" "cfg_boxsize cfg"]
      create_matrices_no_box[of "cfg_Nx cfg"] by auto
  then show ?thesis using False by (simp add: main_def sample_def bindE_def)
qed

theorem invalid_mesh_aborts_before_loop_witness:
  "main 0 (\<lambda>L b. Inr b) (\<lambda>k. 1 / 4 + real k / 2) (\<lambda>k. real k)
     \<lparr>cfg_N = 2, cfg_Nx = 0, cfg_tEnd = 1, cfg_dt = 1, cfg_boxsize = 2, cfg_n0 = 1,
      cfg_vb = 3, cfg_vth = 1\<rparr> = Some (Inl ZeroDivisionError)"
proof -
  obtain e where e: "\<forall>fuel. main fuel (\<lambda>L b. Inr b) (\<lambda>k. 1 / 4 + real k / 2) (\<lambda>k. real k)
     \<lparr>cfg_N = 2, cfg_Nx = 0, cfg_tEnd = 1, cfg_dt = 1, cfg_boxsize = 2, cfg_n0 = 1,
      cfg_vb = 3, cfg_vth = 1\<rparr> = Some (Inl e)"
    using invalid_mesh_aborts_before_loop[of "\<lparr>cfg_N = 2, cfg_Nx = 0, cfg_tEnd = 1, cfg_dt = 1,
      cfg_boxsize = 2, cfg_n0 = 1, cfg_vb = 3, cfg_vth = 1\<rparr>" "\<lambda>L b. Inr b"
      "\<lambda>k. 1 / 4 + real k / 2" "\<lambda>k. real k"] by auto
  moreover have "main 0 (\<lambda>L b. Inr b) (\<lambda>k. 1 / 4 + real k / 2) (\<lambda>k. real k)
     \<lparr>cfg_N = 2, cfg_Nx = 0, cfg_tEnd = 1, cfg_dt = 1, cfg_boxsize = 2, cfg_n0 = 1,
      cfg_vb = 3, cfg_vth = 1\<rparr> = Some (Inl ZeroDivisionError)"
    by (simp add: main_def sample_def bindE_def create_matrices_def py_div_def)
  ultimately show ?thesis by simp
qed

text \<open>
  A negative end time is not detected: the loop body never runs and the program ends
  normally with the initial state.
\<close>

theorem negative_tEnd_counterexample:
  "main 1 (\<lambda>L b. Inr b) (\<lambda>k. 1 / 4 + real k / 2) (\<lambda>k. real k)
     \<lparr>cfg_N = 2, cfg_Nx = 2, cfg_tEnd = - 1, cfg_dt = 1, cfg_boxsize = 2, cfg_n0 = 1,
      cfg_vb = 3, cfg_vth = 1\<rparr>
   = Some (Inr \<lparr>st_pos = 0, st_vel = 1, st_t = 0, st_heap = [[1 / 2, 3 / 2], [3, 4]]\<rparr>)"
  by code_simp

end
